theory Spec2Isabelle
  imports Main "HOL-Library.Sublist"
begin

section \<open>Data model\<close>

text \<open>
  An edit operation is a pair of a tag and a span of text, as the diff library hands it
  to \<^verbatim>\<open>generate_synopsis_html\<close>: the tags are the library's constants
  \<^verbatim>\<open>DIFF_DELETE\<close>, \<^verbatim>\<open>DIFF_INSERT\<close> and \<^verbatim>\<open>DIFF_EQUAL\<close>. Text is a list of characters.
\<close>

datatype op = DIFF_DELETE | DIFF_INSERT | DIFF_EQUAL

type_synonym diff = "op \<times> string"

text \<open>
  The diff library (\<^verbatim>\<open>diff_match_patch\<close>) is a dependency of the repository and is not
  part of its sources. The object \<^verbatim>\<open>dmp\<close> is therefore a parameter of the model: a
  record of the two methods the code calls. \<^verbatim>\<open>diff_cleanupSemantic\<close> rewrites the list
  in place; the model returns the rewritten list.
\<close>

record diff_match_patch =
  diff_main :: "string \<Rightarrow> string \<Rightarrow> diff list"
  diff_cleanupSemantic :: "diff list \<Rightarrow> diff list"

text \<open>The dictionary returned by \<^verbatim>\<open>generate_synopsis_html\<close>.\<close>

record synopsis =
  old_version_html :: string
  new_version_html :: string

section \<open>Python's \<^verbatim>\<open>str.replace\<close>\<close>

text \<open>
  \<^verbatim>\<open>s.replace(old, new)\<close> scans \<^verbatim>\<open>s\<close> from the left and replaces every occurrence of
  \<^verbatim>\<open>old\<close> that does not overlap an earlier one. With an empty \<^verbatim>\<open>old\<close> it puts
  \<^verbatim>\<open>new\<close> before every character and at the end.
\<close>

function replace :: "string \<Rightarrow> string \<Rightarrow> string \<Rightarrow> string" where
  "replace old new s =
     (if old = [] then new @ concat (map (\<lambda>c. c # new) s)
      else if s = [] then []
      else if prefix old s then new @ replace old new (drop (length old) s)
      else hd s # replace old new (tl s))"
  by pat_completeness auto
termination
  by (relation "measure (\<lambda>(old, new, s). length s)") auto

declare replace.simps [simp del]

section \<open>The synopsis renderer\<close>

text \<open>
  Line 51 of \<^verbatim>\<open>app.py\<close>: the four replacements, applied in this order.
\<close>

definition safe_data :: "string \<Rightarrow> string" where
  \<open>safe_data data =
     replace [CHR 0x0A] ''<br>''
       (replace ''>'' ''&gt;'' (replace ''<'' ''&lt;'' (replace ''&'' ''&amp;'' data)))\<close>

definition span_deleted :: string where
  \<open>span_deleted = ''<span class="diff-deleted">''\<close>

definition span_inserted :: string where
  \<open>span_inserted = ''<span class="diff-inserted">''\<close>

definition span_close :: string where
  \<open>span_close = ''</span>''\<close>

text \<open>The body of the \<^verbatim>\<open>for op, data in diffs\<close> loop, on the two strings built so far.\<close>

fun render_op :: "synopsis \<Rightarrow> diff \<Rightarrow> synopsis" where
  "render_op html (DIFF_DELETE, data) =
     html\<lparr>old_version_html := old_version_html html @ span_deleted @ safe_data data @ span_close\<rparr>"
| "render_op html (DIFF_INSERT, data) =
     html\<lparr>new_version_html := new_version_html html @ span_inserted @ safe_data data @ span_close\<rparr>"
| "render_op html (DIFF_EQUAL, data) =
     html\<lparr>old_version_html := old_version_html html @ safe_data data,
          new_version_html := new_version_html html @ safe_data data\<rparr>"

text \<open>The loop, started from two empty strings.\<close>

definition render :: "diff list \<Rightarrow> synopsis" where
  "render diffs = foldl render_op \<lparr>old_version_html = [], new_version_html = []\<rparr> diffs"

definition generate_synopsis_html :: "diff_match_patch \<Rightarrow> string \<Rightarrow> string \<Rightarrow> synopsis" where
  "generate_synopsis_html dmp old_text new_text =
     render (diff_cleanupSemantic dmp (diff_main dmp old_text new_text))"

section \<open>The request layer\<close>

text \<open>
  The three tables of the database. The primary keys \<^verbatim>\<open>id\<close> are named
  \<open>l_id\<close>, \<open>v_id\<close> and \<open>p_id\<close>; \<^verbatim>\<open>LawVersion.description\<close> is \<open>version_description\<close>.
  A nullable column is an option.
\<close>

type_synonym date = "nat \<times> nat \<times> nat"

record Law =
  l_id :: int
  short_name :: string
  full_name_de :: string
  full_name_zh :: "string option"

record LawVersion =
  v_id :: int
  law_id :: int
  version_date :: date
  version_description :: "string option"

record Paragraph =
  p_id :: int
  version_id :: int
  paragraph_number :: string
  content_de :: string
  content_zh :: "string option"

record database =
  laws :: "Law list"
  law_versions :: "LawVersion list"
  paragraphs :: "Paragraph list"

text \<open>
  \<^verbatim>\<open>datetime.date\<close> belongs to the standard library: its parser and printer are
  parameters. \<open>fromisoformat\<close> returns \<open>None\<close> where Python raises \<^verbatim>\<open>ValueError\<close>.
\<close>

record datetime_date =
  fromisoformat :: "string \<Rightarrow> date option"
  isoformat :: "date \<Rightarrow> string"

text \<open>
  \<^verbatim>\<open>db.session.query(Paragraph).join(LawVersion).join(Law).filter(...)\<close>: the rows of the
  join that pass the three filters.
\<close>

definition paragraph_query :: "database \<Rightarrow> string \<Rightarrow> date \<Rightarrow> string \<Rightarrow> Paragraph list" where
  "paragraph_query db law_short_name v_date paragraph_num =
     [p. p \<leftarrow> paragraphs db, v \<leftarrow> law_versions db, l \<leftarrow> laws db,
         version_id p = v_id v, law_id v = l_id l,
         short_name l = law_short_name, version_date v = v_date,
         paragraph_number p = paragraph_num]"

fun first :: "'a list \<Rightarrow> 'a option" where
  "first [] = None"
| "first (x # xs) = Some x"

text \<open>
  The two error bodies: \<open>invalid_date_format\<close> is the message asking for the format
  YYYY-MM-DD, \<open>paragraph_version_not_found\<close> the message that the requested version of the
  provision was not found.
\<close>

datatype error_message = invalid_date_format | paragraph_version_not_found

record version_view =
  view_date :: string
  content_html_de :: string
  content_html_zh :: string

record synopsis_response =
  resp_law :: string
  resp_paragraph :: string
  version_1 :: version_view
  version_2 :: version_view

datatype response_body = Error error_message | Synopsis synopsis_response

type_synonym response = "response_body \<times> nat"

text \<open>\<^verbatim>\<open>p.content_zh or ""\<close>\<close>

fun or_empty :: "string option \<Rightarrow> string" where
  "or_empty None = []"
| "or_empty (Some s) = s"

definition get_synopsis_api ::
  "datetime_date \<Rightarrow> diff_match_patch \<Rightarrow> database \<Rightarrow>
   string \<Rightarrow> string \<Rightarrow> string \<Rightarrow> string \<Rightarrow> response" where
  "get_synopsis_api dt dmp db law_short_name v1_date_str v2_date_str paragraph_num =
     (let paragraph_num_decoded = replace ''%20'' '' '' paragraph_num in
      case fromisoformat dt v1_date_str of
        None \<Rightarrow> (Error invalid_date_format, 400)
      | Some v1_date \<Rightarrow>
          (case fromisoformat dt v2_date_str of
             None \<Rightarrow> (Error invalid_date_format, 400)
           | Some v2_date \<Rightarrow>
               (case (first (paragraph_query db law_short_name v1_date paragraph_num_decoded),
                      first (paragraph_query db law_short_name v2_date paragraph_num_decoded)) of
                  (Some p1, Some p2) \<Rightarrow>
                    (let synopsis_data_de =
                           generate_synopsis_html dmp (content_de p1) (content_de p2);
                         synopsis_data_zh =
                           generate_synopsis_html dmp (or_empty (content_zh p1))
                             (or_empty (content_zh p2))
                     in (Synopsis \<lparr>resp_law = law_short_name,
                                    resp_paragraph = paragraph_num_decoded,
                                    version_1 = \<lparr>view_date = isoformat dt v1_date,
                                      content_html_de = old_version_html synopsis_data_de,
                                      content_html_zh = old_version_html synopsis_data_zh\<rparr>,
                                    version_2 = \<lparr>view_date = isoformat dt v2_date,
                                      content_html_de = new_version_html synopsis_data_de,
                                      content_html_zh = new_version_html synopsis_data_zh\<rparr>\<rparr>,
                         200))
                | _ \<Rightarrow> (Error paragraph_version_not_found, 404))))"

section \<open>Notions the properties are stated with\<close>

text \<open>
  The old side of an edit script is the text of its Equal and Delete spans, in order; the
  new side is the text of its Equal and Insert spans.
\<close>

fun old_side :: "diff list \<Rightarrow> string" where
  "old_side [] = []"
| "old_side ((DIFF_INSERT, data) # ds) = old_side ds"
| "old_side ((DIFF_DELETE, data) # ds) = data @ old_side ds"
| "old_side ((DIFF_EQUAL, data) # ds) = data @ old_side ds"

fun new_side :: "diff list \<Rightarrow> string" where
  "new_side [] = []"
| "new_side ((DIFF_DELETE, data) # ds) = new_side ds"
| "new_side ((DIFF_INSERT, data) # ds) = data @ new_side ds"
| "new_side ((DIFF_EQUAL, data) # ds) = data @ new_side ds"

text \<open>
  Reading a rendered string back: the three annotation tags are removed, then the four
  replacements of \<open>safe_data\<close> are undone, last one first.
\<close>

definition strip_annotations :: "string \<Rightarrow> string" where
  "strip_annotations html =
     replace span_close [] (replace span_inserted [] (replace span_deleted [] html))"

definition unescape :: "string \<Rightarrow> string" where
  \<open>unescape s =
     replace ''&amp;'' ''&'' (replace ''&lt;'' ''<'' (replace ''&gt;'' ''>''
       (replace ''<br>'' [CHR 0x0A] s)))\<close>

text \<open>
  A lookup finds a record when the query for the decoded paragraph number has a row.
\<close>

definition found :: "database \<Rightarrow> string \<Rightarrow> date \<Rightarrow> string \<Rightarrow> bool" where
  "found db law_short_name v_date paragraph_num =
     (paragraph_query db law_short_name v_date (replace ''%20'' '' '' paragraph_num) \<noteq> [])"

text \<open>
  Instances of the parameters, for the concrete runs below: an engine that reports the
  longest common prefix as unchanged and the two remainders as deleted and inserted, a
  date parser that knows three dates, and a database of one law with two versions of one
  provision.
\<close>

definition common_prefix_engine :: diff_match_patch where
  "common_prefix_engine =
     \<lparr>diff_main = (\<lambda>old_text new_text.
        [(DIFF_EQUAL, longest_common_prefix old_text new_text),
         (DIFF_DELETE, drop (length (longest_common_prefix old_text new_text)) old_text),
         (DIFF_INSERT, drop (length (longest_common_prefix old_text new_text)) new_text)]),
      diff_cleanupSemantic = (\<lambda>diffs. diffs)\<rparr>"

definition sample_dates :: datetime_date where
  "sample_dates =
     \<lparr>fromisoformat = (\<lambda>s. if s = ''2019-01-01'' then Some (2019, 1, 1)
                           else if s = ''2020-01-01'' then Some (2020, 1, 1)
                           else if s = ''2021-01-01'' then Some (2021, 1, 1) else None),
      isoformat = (\<lambda>d. if d = (2019, 1, 1) then ''2019-01-01''
                       else if d = (2020, 1, 1) then ''2020-01-01'' else ''2021-01-01'')\<rparr>"

definition sample_db :: database where
  "sample_db =
     \<lparr>laws = [\<lparr>l_id = 1, short_name = ''EStG'', full_name_de = ''Einkommensteuergesetz'',
                full_name_zh = None\<rparr>],
      law_versions =
        [\<lparr>v_id = 1, law_id = 1, version_date = (2019, 1, 1), version_description = None\<rparr>,
         \<lparr>v_id = 2, law_id = 1, version_date = (2020, 1, 1), version_description = None\<rparr>],
      paragraphs =
        [\<lparr>p_id = 1, version_id = 1, paragraph_number = ''Par 1'',
          content_de = ''the cat sat'', content_zh = None\<rparr>,
         \<lparr>p_id = 2, version_id = 2, paragraph_number = ''Par 1'',
          content_de = ''the cat ran'', content_zh = None\<rparr>]\<rparr>"

section \<open>The diff engine, as the specification describes it\<close>

text \<open>
  The engine itself is the library behind \<open>diff_match_patch\<close>; the definitions of this
  section follow section 4.1 of the specification instead. Where the specification leaves a
  heuristic open (its design notes name the threshold and the snapping to word boundaries),
  the choice made is written at the definition, and the threshold is a parameter.
\<close>

text \<open>
  Modelled from the spec: the character-level edit distance of two texts (the engine's
  search is not in the sources). It is the D of the edit-graph search of phase 1: the least
  number of single-character deletions and insertions that turn the old text into the new
  one. A character can be kept, at no cost, only where the two texts agree.
\<close>

fun edit_distance :: "string \<Rightarrow> string \<Rightarrow> nat" where
  "edit_distance [] ys = length ys"
| "edit_distance xs [] = length xs"
| "edit_distance (x # xs) (y # ys) =
     (let by_edit = Suc (min (edit_distance xs (y # ys)) (edit_distance (x # xs) ys))
      in if x = y then min (edit_distance xs ys) by_edit else by_edit)"

text \<open>
  Modelled from the spec: phase 1 of the engine, the shortest edit script on character
  units (the library's \<^verbatim>\<open>diff_main\<close> is not in the sources). Matching characters are kept
  as long as possible from the start of the text (the tie-break rule); at a mismatch the
  script goes the way that leaves the smaller distance, deleting on a tie. Every operation
  of the raw script carries one character.
\<close>

fun shortest_edit_script :: "string \<Rightarrow> string \<Rightarrow> diff list" where
  "shortest_edit_script [] ys = map (\<lambda>y. (DIFF_INSERT, [y])) ys"
| "shortest_edit_script xs [] = map (\<lambda>x. (DIFF_DELETE, [x])) xs"
| "shortest_edit_script (x # xs) (y # ys) =
     (if x = y then (DIFF_EQUAL, [x]) # shortest_edit_script xs ys
      else if edit_distance xs (y # ys) \<le> edit_distance (x # xs) ys
        then (DIFF_DELETE, [x]) # shortest_edit_script xs (y # ys)
        else (DIFF_INSERT, [y]) # shortest_edit_script (x # xs) ys)"

text \<open>
  Modelled from the spec: the first step of the cleanup pass, "merges directly adjacent
  operations of the same tag into one" (the library's cleanup is not in the sources).
\<close>

fun merge_adjacent :: "diff list \<Rightarrow> diff list" where
  "merge_adjacent [] = []"
| "merge_adjacent [d] = [d]"
| "merge_adjacent ((t1, s1) # (t2, s2) # ds) =
     (if t1 = t2 then merge_adjacent ((t1, s1 @ s2) # ds)
      else (t1, s1) # merge_adjacent ((t2, s2) # ds))"

text \<open>
  Modelled from the spec: the operations an uninterrupted run of edits is merged into, one
  Delete and one Insert, an empty one left out (the library's cleanup is not in the
  sources).
\<close>

definition flush_edits :: "string \<Rightarrow> string \<Rightarrow> diff list" where
  "flush_edits del ins =
     (if del = [] then [] else [(DIFF_DELETE, del)]) @
     (if ins = [] then [] else [(DIFF_INSERT, ins)])"

text \<open>
  Modelled from the spec: the text of the Delete and of the Insert operations between two
  unchanged spans is collected, so that absorbed text joins "the surrounding insert/delete
  operation"; an empty unchanged span is dropped (the library's cleanup is not in the
  sources).
\<close>

fun gather_edits :: "string \<Rightarrow> string \<Rightarrow> diff list \<Rightarrow> diff list" where
  "gather_edits del ins [] = flush_edits del ins"
| "gather_edits del ins ((DIFF_DELETE, s) # ds) = gather_edits (del @ s) ins ds"
| "gather_edits del ins ((DIFF_INSERT, s) # ds) = gather_edits del (ins @ s) ds"
| "gather_edits del ins ((DIFF_EQUAL, s) # ds) =
     (if s = [] then gather_edits del ins ds
      else flush_edits del ins @ (DIFF_EQUAL, s) # gather_edits [] [] ds)"

text \<open>
  Modelled from the spec: the merge step of the cleanup pass as a whole (the library's
  cleanup is not in the sources).
\<close>

definition merge_operations :: "diff list \<Rightarrow> diff list" where
  "merge_operations ds = merge_adjacent (gather_edits [] [] ds)"

text \<open>
  Modelled from the spec: whether the next operation is an edit (the library's cleanup is
  not in the sources).
\<close>

fun starts_with_edit :: "diff list \<Rightarrow> bool" where
  "starts_with_edit [] = False"
| "starts_with_edit ((t, s) # ds) = (t \<noteq> DIFF_EQUAL)"

text \<open>
  Modelled from the spec: the second step of the cleanup pass, which "eliminates noise
  ... shorter than a small threshold", "re-absorbing" it into the surrounding operations
  (the library's cleanup is not in the sources). The reading taken: an unchanged span
  shorter than the threshold that lies between two edits becomes part of both of them. The
  threshold is a parameter; the flag says that an edit precedes.
\<close>

fun absorb_noise :: "nat \<Rightarrow> bool \<Rightarrow> diff list \<Rightarrow> diff list" where
  "absorb_noise threshold after_edit [] = []"
| "absorb_noise threshold after_edit ((DIFF_EQUAL, s) # ds) =
     (if after_edit \<and> starts_with_edit ds \<and> length s < threshold
      then (DIFF_DELETE, s) # (DIFF_INSERT, s) # absorb_noise threshold True ds
      else (DIFF_EQUAL, s) # absorb_noise threshold False ds)"
| "absorb_noise threshold after_edit (d # ds) = d # absorb_noise threshold True ds"

text \<open>
  Modelled from the spec: a whitespace or punctuation character, by its ASCII code (the
  library's cleanup is not in the sources).
\<close>

definition is_boundary :: "char \<Rightarrow> bool" where
  "is_boundary c =
     (let n = (of_char c :: nat)
      in (9 \<le> n \<and> n \<le> 13) \<or> (32 \<le> n \<and> n \<le> 47) \<or> (58 \<le> n \<and> n \<le> 64) \<or>
         (91 \<le> n \<and> n \<le> 96) \<or> (123 \<le> n \<and> n \<le> 126))"

text \<open>
  Modelled from the spec: a character inside a word (the library's cleanup is not in the
  sources).
\<close>

definition in_word :: "char \<Rightarrow> bool" where
  "in_word c = (\<not> is_boundary c)"

text \<open>
  Modelled from the spec: whether the next operation is an edit that begins inside a word
  (the library's cleanup is not in the sources).
\<close>

fun starts_in_word :: "diff list \<Rightarrow> bool" where
  "starts_in_word [] = False"
| "starts_in_word ((t, s) # ds) = (t \<noteq> DIFF_EQUAL \<and> s \<noteq> [] \<and> in_word (hd s))"

text \<open>
  Modelled from the spec: unchanged text taken into an edit is reported as deleted and as
  inserted, which leaves the net character delta as it was (the library's cleanup is not in
  the sources).
\<close>

definition as_change :: "string \<Rightarrow> diff list" where
  "as_change w = (if w = [] then [] else [(DIFF_DELETE, w), (DIFF_INSERT, w)])"

text \<open>
  Modelled from the spec: the part of an unchanged span, at its start, that belongs to the
  word the preceding edit ended in (the library's cleanup is not in the sources).
\<close>

definition split_leading_word :: "bool \<Rightarrow> string \<Rightarrow> string \<times> string" where
  "split_leading_word ends_in_word s =
     (if ends_in_word then (takeWhile in_word s, dropWhile in_word s) else ([], s))"

text \<open>
  Modelled from the spec: the part of an unchanged span, at its end, that belongs to the
  word the following edit begins in (the library's cleanup is not in the sources).
\<close>

definition split_trailing_word :: "bool \<Rightarrow> string \<Rightarrow> string \<times> string" where
  "split_trailing_word next_in_word s =
     (if next_in_word then (rev (dropWhile in_word (rev s)), rev (takeWhile in_word (rev s)))
      else (s, []))"

text \<open>
  Modelled from the spec: the third step of the cleanup pass, which "shifts edit
  boundaries outward to the nearest whitespace/punctuation boundary", "so that a changed
  word is reported as a whole word" (the library's cleanup is not in the sources). The
  flag says that the preceding edit ended inside a word.
\<close>

fun shift_boundaries :: "bool \<Rightarrow> diff list \<Rightarrow> diff list" where
  "shift_boundaries ends_in_word [] = []"
| "shift_boundaries ends_in_word ((DIFF_EQUAL, s) # ds) =
     (case split_leading_word ends_in_word s of (head, rest) \<Rightarrow>
        (case split_trailing_word (starts_in_word ds) rest of (middle, tail) \<Rightarrow>
           as_change head @ (DIFF_EQUAL, middle) # as_change tail @ shift_boundaries False ds))"
| "shift_boundaries ends_in_word ((t, s) # ds) =
     (t, s) # shift_boundaries (s \<noteq> [] \<and> in_word (last s)) ds"

text \<open>
  Modelled from the spec: phase 2 of the engine, the three steps in the order of section
  4.1, with a merge after each (the library's \<^verbatim>\<open>diff_cleanupSemantic\<close> is not in the
  sources).
\<close>

definition semantic_cleanup :: "nat \<Rightarrow> diff list \<Rightarrow> diff list" where
  "semantic_cleanup threshold ds =
     merge_operations (shift_boundaries False
       (merge_operations (absorb_noise threshold False (merge_operations ds))))"

text \<open>
  Modelled from the spec: \<^verbatim>\<open>compute(old, new)\<close> of section 4.1, phase 1 followed by phase 2
  (the library is not in the sources).
\<close>

definition compute :: "nat \<Rightarrow> string \<Rightarrow> string \<Rightarrow> diff list" where
  "compute threshold old_text new_text =
     semantic_cleanup threshold (shortest_edit_script old_text new_text)"

text \<open>
  Modelled from the spec: the engine of section 4.1 in the place of the library object of
  \<^verbatim>\<open>generate_synopsis_html\<close> (the library is not in the sources).
\<close>

definition spec_engine :: "nat \<Rightarrow> diff_match_patch" where
  "spec_engine threshold =
     \<lparr>diff_main = shortest_edit_script, diff_cleanupSemantic = semantic_cleanup threshold\<rparr>"

text \<open>
  The number of characters an edit script carries in its Delete and Insert operations.
\<close>

fun edit_chars :: "diff list \<Rightarrow> nat" where
  "edit_chars [] = 0"
| "edit_chars ((DIFF_EQUAL, s) # ds) = edit_chars ds"
| "edit_chars ((t, s) # ds) = length s + edit_chars ds"

section \<open>Facts about \<open>replace\<close> and the escaping\<close>

lemma replace_Nil [simp]: "replace (p # ps) new [] = []"
  by (simp add: replace.simps)

lemma replace_Cons:
  "replace (p # ps) new (c # s) =
     (if prefix (p # ps) (c # s) then new @ replace (p # ps) new (drop (length ps) s)
      else c # replace (p # ps) new s)"
  by (subst replace.simps) simp

lemma replace_char: "replace [p] new s = concat (map (\<lambda>c. if c = p then new else [c]) s)"
  by (induction s) (auto simp: replace_Cons)

text \<open>The four replacements together act on each character by itself.\<close>

fun escape_char :: "char \<Rightarrow> string" where
  \<open>escape_char c =
     (if c = CHR ''&'' then ''&amp;'' else if c = CHR ''<'' then ''&lt;''
      else if c = CHR ''>'' then ''&gt;'' else if c = CHR 0x0A then ''<br>'' else [c])\<close>

fun escape3 :: "char \<Rightarrow> string" where
  \<open>escape3 c =
     (if c = CHR ''&'' then ''&amp;'' else if c = CHR ''<'' then ''&lt;''
      else if c = CHR ''>'' then ''&gt;'' else [c])\<close>

fun escape2 :: "char \<Rightarrow> string" where
  \<open>escape2 c =
     (if c = CHR ''&'' then ''&amp;'' else if c = CHR ''<'' then ''&lt;'' else [c])\<close>

fun escape1 :: "char \<Rightarrow> string" where
  \<open>escape1 c = (if c = CHR ''&'' then ''&amp;'' else [c])\<close>

lemma safe_data_concat: "safe_data s = concat (map escape_char s)"
  unfolding safe_data_def replace_char
  by (induction s) auto

lemma safe_data_append: "safe_data (a @ b) = safe_data a @ safe_data b"
  by (simp add: safe_data_concat)

lemma undo_br:
  \<open>replace ''<br>'' [CHR 0x0A] (concat (map escape_char s)) = concat (map escape3 s)\<close>
  by (induction s) (simp_all add: replace_Cons)

lemma undo_gt:
  \<open>replace ''&gt;'' ''>'' (concat (map escape3 s)) = concat (map escape2 s)\<close>
  by (induction s) (simp_all add: replace_Cons)

lemma undo_lt:
  \<open>replace ''&lt;'' ''<'' (concat (map escape2 s)) = concat (map escape1 s)\<close>
  by (induction s) (simp_all add: replace_Cons)

lemma undo_amp:
  \<open>replace ''&amp;'' ''&'' (concat (map escape1 s)) = s\<close>
  by (induction s) (simp_all add: replace_Cons)

lemma unescape_safe_data: "unescape (safe_data s) = s"
  by (simp add: unescape_def safe_data_concat undo_br undo_gt undo_lt undo_amp)

text \<open>
  Escaped text holds \<open><\<close> only at the start of a line-break marker, so removing a tag
  passes over it.
\<close>

lemma replace_past_safe_data:
  \<open>x \<noteq> CHR ''b'' \<Longrightarrow>
   replace (CHR ''<'' # x # ps) new (concat (map escape_char d) @ rest) =
   concat (map escape_char d) @ replace (CHR ''<'' # x # ps) new rest\<close>
  by (induction d) (simp_all add: replace_Cons)

lemma strip_safe_data:
  "strip_annotations (safe_data d @ rest) = safe_data d @ strip_annotations rest"
  by (simp add: strip_annotations_def safe_data_concat span_deleted_def span_inserted_def
      span_close_def replace_past_safe_data)

lemma strip_Nil: "strip_annotations [] = []"
  by (simp add: strip_annotations_def span_deleted_def span_inserted_def span_close_def)

lemma del_del: "replace span_deleted [] (span_deleted @ rest) = replace span_deleted [] rest"
  by (simp add: span_deleted_def replace_Cons)

lemma del_ins:
  "replace span_deleted [] (span_inserted @ rest) = span_inserted @ replace span_deleted [] rest"
  by (simp add: span_deleted_def span_inserted_def replace_Cons)

lemma del_close:
  "replace span_deleted [] (span_close @ rest) = span_close @ replace span_deleted [] rest"
  by (simp add: span_deleted_def span_close_def replace_Cons)

lemma ins_del:
  "replace span_inserted [] (span_deleted @ rest) = span_deleted @ replace span_inserted [] rest"
  by (simp add: span_deleted_def span_inserted_def replace_Cons)

lemma ins_ins: "replace span_inserted [] (span_inserted @ rest) = replace span_inserted [] rest"
  by (simp add: span_inserted_def replace_Cons)

lemma ins_close:
  "replace span_inserted [] (span_close @ rest) = span_close @ replace span_inserted [] rest"
  by (simp add: span_inserted_def span_close_def replace_Cons)

lemma close_del:
  "replace span_close [] (span_deleted @ rest) = span_deleted @ replace span_close [] rest"
  by (simp add: span_deleted_def span_close_def replace_Cons)

lemma close_ins:
  "replace span_close [] (span_inserted @ rest) = span_inserted @ replace span_close [] rest"
  by (simp add: span_inserted_def span_close_def replace_Cons)

lemma close_close: "replace span_close [] (span_close @ rest) = replace span_close [] rest"
  by (simp add: span_close_def replace_Cons)

section \<open>What the renderer writes, read back\<close>

lemma foldl_render_op_old:
  "old_version_html (foldl render_op html diffs) =
     old_version_html html @ concat (map (\<lambda>(t, d). case t of
        DIFF_DELETE \<Rightarrow> span_deleted @ safe_data d @ span_close
      | DIFF_INSERT \<Rightarrow> []
      | DIFF_EQUAL \<Rightarrow> safe_data d) diffs)"
proof (induction diffs arbitrary: html)
  case Nil
  show ?case by simp
next
  case (Cons x diffs)
  obtain t d where x: "x = (t, d)" by (cases x)
  show ?case unfolding x by (cases t) (simp_all add: Cons)
qed

lemma foldl_render_op_new:
  "new_version_html (foldl render_op html diffs) =
     new_version_html html @ concat (map (\<lambda>(t, d). case t of
        DIFF_DELETE \<Rightarrow> []
      | DIFF_INSERT \<Rightarrow> span_inserted @ safe_data d @ span_close
      | DIFF_EQUAL \<Rightarrow> safe_data d) diffs)"
proof (induction diffs arbitrary: html)
  case Nil
  show ?case by simp
next
  case (Cons x diffs)
  obtain t d where x: "x = (t, d)" by (cases x)
  show ?case unfolding x by (cases t) (simp_all add: Cons)
qed

lemma strip_deleted_span:
  "strip_annotations (span_deleted @ safe_data d @ span_close @ rest) =
     safe_data d @ strip_annotations rest"
proof -
  have "strip_annotations (span_deleted @ safe_data d @ span_close @ rest) =
        strip_annotations (safe_data d @ span_close @ rest)"
    by (simp add: strip_annotations_def del_del)
  also have "\<dots> = safe_data d @ strip_annotations (span_close @ rest)"
    by (rule strip_safe_data)
  also have "strip_annotations (span_close @ rest) = strip_annotations rest"
    by (simp add: strip_annotations_def del_close ins_close close_close)
  finally show ?thesis .
qed

lemma strip_inserted_span:
  "strip_annotations (span_inserted @ safe_data d @ span_close @ rest) =
     safe_data d @ strip_annotations rest"
proof -
  have "strip_annotations (span_inserted @ safe_data d @ span_close @ rest) =
        strip_annotations (safe_data d @ span_close @ rest)"
    by (simp add: strip_annotations_def del_ins ins_ins)
  also have "\<dots> = safe_data d @ strip_annotations (span_close @ rest)"
    by (rule strip_safe_data)
  also have "strip_annotations (span_close @ rest) = strip_annotations rest"
    by (simp add: strip_annotations_def del_close ins_close close_close)
  finally show ?thesis .
qed

lemma strip_old_html:
  "strip_annotations (concat (map (\<lambda>(t, d). case t of
        DIFF_DELETE \<Rightarrow> span_deleted @ safe_data d @ span_close
      | DIFF_INSERT \<Rightarrow> []
      | DIFF_EQUAL \<Rightarrow> safe_data d) diffs)) = safe_data (old_side diffs)"
proof (induction diffs)
  case Nil
  show ?case by (simp add: strip_Nil safe_data_concat)
next
  case (Cons x diffs)
  obtain t d where x: "x = (t, d)" by (cases x)
  show ?case unfolding x
    by (cases t) (simp_all add: Cons strip_deleted_span strip_safe_data safe_data_append)
qed

lemma strip_new_html:
  "strip_annotations (concat (map (\<lambda>(t, d). case t of
        DIFF_DELETE \<Rightarrow> []
      | DIFF_INSERT \<Rightarrow> span_inserted @ safe_data d @ span_close
      | DIFF_EQUAL \<Rightarrow> safe_data d) diffs)) = safe_data (new_side diffs)"
proof (induction diffs)
  case Nil
  show ?case by (simp add: strip_Nil safe_data_concat)
next
  case (Cons x diffs)
  obtain t d where x: "x = (t, d)" by (cases x)
  show ?case unfolding x
    by (cases t) (simp_all add: Cons strip_inserted_span strip_safe_data safe_data_append)
qed

lemma read_back_old: "unescape (strip_annotations (old_version_html (render diffs))) = old_side diffs"
  by (simp add: render_def foldl_render_op_old strip_old_html unescape_safe_data)

lemma read_back_new: "unescape (strip_annotations (new_version_html (render diffs))) = new_side diffs"
  by (simp add: render_def foldl_render_op_new strip_new_html unescape_safe_data)

lemma first_None: "first xs = None \<longleftrightarrow> xs = []"
  by (cases xs) simp_all

section \<open>Properties of the renderer\<close>

text \<open>
  C2. The renderer handles the operations in order: rendering a script extended by one
  more operation is the rendering of the script with that operation's escaped text added
  at the end. An Equal operation adds its escaped text, unchanged, to both outputs; a
  Delete operation adds its escaped text inside the "deleted" annotation to the old output
  only; an Insert operation adds its escaped text inside the "inserted" annotation to the
  new output only.
\<close>

theorem render_routes_operations:
  "render [] = \<lparr>old_version_html = [], new_version_html = []\<rparr> \<and>
   render (diffs @ [(DIFF_EQUAL, data)]) =
     \<lparr>old_version_html = old_version_html (render diffs) @ safe_data data,
      new_version_html = new_version_html (render diffs) @ safe_data data\<rparr> \<and>
   render (diffs @ [(DIFF_DELETE, data)]) =
     \<lparr>old_version_html = old_version_html (render diffs) @ span_deleted @ safe_data data @ span_close,
      new_version_html = new_version_html (render diffs)\<rparr> \<and>
   render (diffs @ [(DIFF_INSERT, data)]) =
     \<lparr>old_version_html = old_version_html (render diffs),
      new_version_html = new_version_html (render diffs) @ span_inserted @ safe_data data @ span_close\<rparr>"
  by (simp add: render_def)

text \<open>
  C3. For every edit script, the reserved characters and line breaks in its text included:
  removing the annotation tags from the two rendered strings and undoing the escaping
  gives the old side and the new side of the script. So, for every pair of texts, when the
  edit script the library returns for them has the old text as its old side and the new
  text as its new side, the two rendered strings read back as the old text and the new
  text.
\<close>

theorem escaping_round_trip:
  "unescape (strip_annotations (old_version_html (render diffs))) = old_side diffs \<and>
   unescape (strip_annotations (new_version_html (render diffs))) = new_side diffs \<and>
   (old_side (diff_cleanupSemantic dmp (diff_main dmp old_text new_text)) = old_text \<and>
    new_side (diff_cleanupSemantic dmp (diff_main dmp old_text new_text)) = new_text \<longrightarrow>
    unescape (strip_annotations
      (old_version_html (generate_synopsis_html dmp old_text new_text))) = old_text \<and>
    unescape (strip_annotations
      (new_version_html (generate_synopsis_html dmp old_text new_text))) = new_text)"
  by (simp add: generate_synopsis_html_def read_back_old read_back_new)

theorem escaping_round_trip_witness:
  \<open>old_side (diff_cleanupSemantic common_prefix_engine
      (diff_main common_prefix_engine ''a<b & c'' ''a>\<newline><br>'')) = ''a<b & c'' \<and>
   new_side (diff_cleanupSemantic common_prefix_engine
      (diff_main common_prefix_engine ''a<b & c'' ''a>\<newline><br>'')) = ''a>\<newline><br>'' \<and>
   unescape (strip_annotations (old_version_html
      (generate_synopsis_html common_prefix_engine ''a<b & c'' ''a>\<newline><br>''))) = ''a<b & c'' \<and>
   unescape (strip_annotations (new_version_html
      (generate_synopsis_html common_prefix_engine ''a<b & c'' ''a>\<newline><br>''))) =
      ''a>\<newline><br>''\<close>
proof -
  let ?old = \<open>''a<b & c''\<close>
  let ?new = \<open>''a>\<newline><br>''\<close>
  have o: "old_side (diff_cleanupSemantic common_prefix_engine
             (diff_main common_prefix_engine ?old ?new)) = ?old"
    by (simp add: common_prefix_engine_def)
  have n: "new_side (diff_cleanupSemantic common_prefix_engine
             (diff_main common_prefix_engine ?old ?new)) = ?new"
    by (simp add: common_prefix_engine_def)
  from escaping_round_trip [of "[]" common_prefix_engine ?old ?new] o n
  have "unescape (strip_annotations (old_version_html
          (generate_synopsis_html common_prefix_engine ?old ?new))) = ?old \<and>
        unescape (strip_annotations (new_version_html
          (generate_synopsis_html common_prefix_engine ?old ?new))) = ?new"
    by blast
  with o n show ?thesis by blast
qed

text \<open>
  C10. The escaping step is injective: two texts have the same escaped form only when they
  are the same text. A literal \<^verbatim>\<open><br>\<close> in the text is written \<^verbatim>\<open>&lt;br&gt;\<close>, which differs
  from the marker \<^verbatim>\<open><br>\<close> written for a line break.
\<close>

theorem safe_data_injective:
  \<open>(safe_data a = safe_data b) = (a = b) \<and>
   safe_data ''<br>'' = ''&lt;br&gt;'' \<and>
   safe_data [CHR 0x0A] = ''<br>'' \<and>
   safe_data ''<br>'' \<noteq> safe_data [CHR 0x0A]\<close>
proof -
  have "a = b" if "safe_data a = safe_data b"
  proof -
    have "unescape (safe_data a) = unescape (safe_data b)" using that by simp
    then show ?thesis by (simp add: unescape_safe_data)
  qed
  then have "(safe_data a = safe_data b) = (a = b)" by auto
  then show ?thesis by (simp add: safe_data_concat)
qed

section \<open>Properties of the request layer\<close>

text \<open>
  C9. A request with a date string that does not parse is answered with the bad-input
  error and status 400. A request whose dates parse and for which one of the two lookups
  finds no record is answered with the not-found error and status 404. A synopsis is
  answered only when both dates parse and both lookups find a record, so a lookup that
  finds nothing is never rendered as a comparison.
\<close>

theorem get_synopsis_api_errors:
  "(fromisoformat dt v1 = None \<or> fromisoformat dt v2 = None \<longrightarrow>
      get_synopsis_api dt dmp db nm v1 v2 pn = (Error invalid_date_format, 400)) \<and>
   (\<forall>d1 d2. fromisoformat dt v1 = Some d1 \<and> fromisoformat dt v2 = Some d2 \<and>
       (\<not> found db nm d1 pn \<or> \<not> found db nm d2 pn) \<longrightarrow>
      get_synopsis_api dt dmp db nm v1 v2 pn = (Error paragraph_version_not_found, 404)) \<and>
   (\<forall>r code. get_synopsis_api dt dmp db nm v1 v2 pn = (Synopsis r, code) \<longrightarrow>
      (\<exists>d1 d2. fromisoformat dt v1 = Some d1 \<and> fromisoformat dt v2 = Some d2 \<and>
         found db nm d1 pn \<and> found db nm d2 pn))"
  by (auto simp: get_synopsis_api_def found_def Let_def first_None
      split: option.splits list.splits)

theorem get_synopsis_api_errors_witness:
  "fromisoformat sample_dates ''01.01.2019'' = None \<and>
   get_synopsis_api sample_dates common_prefix_engine sample_db
     ''EStG'' ''01.01.2019'' ''2020-01-01'' ''Par%201'' = (Error invalid_date_format, 400) \<and>
   fromisoformat sample_dates ''2019-01-01'' = Some (2019, 1, 1) \<and>
   fromisoformat sample_dates ''2021-01-01'' = Some (2021, 1, 1) \<and>
   \<not> found sample_db ''EStG'' (2021, 1, 1) ''Par%201'' \<and>
   get_synopsis_api sample_dates common_prefix_engine sample_db
     ''EStG'' ''2019-01-01'' ''2021-01-01'' ''Par%201'' = (Error paragraph_version_not_found, 404) \<and>
   found sample_db ''EStG'' (2019, 1, 1) ''Par%201'' \<and>
   found sample_db ''EStG'' (2020, 1, 1) ''Par%201'' \<and>
   fst (get_synopsis_api sample_dates common_prefix_engine sample_db
     ''EStG'' ''2019-01-01'' ''2020-01-01'' ''Par%201'') \<noteq> Error paragraph_version_not_found"
proof -
  have a: "fromisoformat sample_dates ''01.01.2019'' = None"
    by (simp add: sample_dates_def)
  have b: "fromisoformat sample_dates ''2019-01-01'' = Some (2019, 1, 1)"
    "fromisoformat sample_dates ''2021-01-01'' = Some (2021, 1, 1)"
    "fromisoformat sample_dates ''2020-01-01'' = Some (2020, 1, 1)"
    by (simp_all add: sample_dates_def)
  have dec: "replace ''%20'' '' '' ''Par%201'' = ''Par 1''"
    by (simp add: replace_Cons)
  have c: "\<not> found sample_db ''EStG'' (2021, 1, 1) ''Par%201''"
    by (simp add: found_def dec paragraph_query_def sample_db_def)
  have d: "found sample_db ''EStG'' (2019, 1, 1) ''Par%201''"
    "found sample_db ''EStG'' (2020, 1, 1) ''Par%201''"
    by (simp_all add: found_def dec paragraph_query_def sample_db_def)
  have e: "fst (get_synopsis_api sample_dates common_prefix_engine sample_db
     ''EStG'' ''2019-01-01'' ''2020-01-01'' ''Par%201'') \<noteq> Error paragraph_version_not_found"
    by (simp add: get_synopsis_api_def b dec paragraph_query_def sample_db_def Let_def)
  note t1 = get_synopsis_api_errors [of sample_dates "''01.01.2019''" "''2020-01-01''"
      common_prefix_engine sample_db "''EStG''" "''Par%201''"]
  note t2 = get_synopsis_api_errors [of sample_dates "''2019-01-01''" "''2021-01-01''"
      common_prefix_engine sample_db "''EStG''" "''Par%201''"]
  from t1 a have r1: "get_synopsis_api sample_dates common_prefix_engine sample_db
     ''EStG'' ''01.01.2019'' ''2020-01-01'' ''Par%201'' = (Error invalid_date_format, 400)"
    by blast
  from t2 b c have r2: "get_synopsis_api sample_dates common_prefix_engine sample_db
     ''EStG'' ''2019-01-01'' ''2021-01-01'' ''Par%201'' = (Error paragraph_version_not_found, 404)"
    by blast
  show ?thesis using a b c d e r1 r2 by blast
qed

section \<open>Facts about the engine of the specification\<close>

lemma old_side_append: "old_side (a @ b) = old_side a @ old_side b"
  by (induction a rule: old_side.induct) simp_all

lemma new_side_append: "new_side (a @ b) = new_side a @ new_side b"
  by (induction a rule: new_side.induct) simp_all

lemma old_side_Cons: "old_side ((t, s) # ds) = (if t = DIFF_INSERT then [] else s) @ old_side ds"
  by (cases t) simp_all

lemma new_side_Cons: "new_side ((t, s) # ds) = (if t = DIFF_DELETE then [] else s) @ new_side ds"
  by (cases t) simp_all

lemma sides_shortest_edit_script:
  "old_side (shortest_edit_script xs ys) = xs \<and> new_side (shortest_edit_script xs ys) = ys"
proof (induction xs ys rule: shortest_edit_script.induct)
  case (1 ys)
  show ?case by (induction ys) simp_all
next
  case (2 x xs)
  have "old_side (map (\<lambda>x. (DIFF_DELETE, [x])) zs) = zs \<and>
        new_side (map (\<lambda>x. (DIFF_DELETE, [x])) zs) = []" for zs
    by (induction zs) simp_all
  then show ?case by simp
next
  case (3 x xs y ys)
  then show ?case by simp
qed

lemma sides_merge_adjacent:
  "old_side (merge_adjacent ds) = old_side ds \<and> new_side (merge_adjacent ds) = new_side ds"
proof (induction ds rule: merge_adjacent.induct)
  case 1
  show ?case by simp
next
  case (2 d)
  show ?case by simp
next
  case (3 t1 s1 t2 s2 ds)
  show ?case
  proof (cases "t1 = t2")
    case True
    with 3 show ?thesis by (simp add: old_side_Cons new_side_Cons)
  next
    case False
    with 3 show ?thesis by (simp add: old_side_Cons new_side_Cons)
  qed
qed

lemma sides_flush_edits:
  "old_side (flush_edits del ins) = del \<and> new_side (flush_edits del ins) = ins"
  by (simp add: flush_edits_def)

lemma sides_gather_edits:
  "old_side (gather_edits del ins ds) = del @ old_side ds \<and>
   new_side (gather_edits del ins ds) = ins @ new_side ds"
  by (induction del ins ds rule: gather_edits.induct)
    (simp_all add: sides_flush_edits old_side_append new_side_append)

lemma sides_merge_operations:
  "old_side (merge_operations ds) = old_side ds \<and> new_side (merge_operations ds) = new_side ds"
  by (simp add: merge_operations_def sides_merge_adjacent sides_gather_edits)

lemma sides_absorb_noise:
  "old_side (absorb_noise threshold after_edit ds) = old_side ds \<and>
   new_side (absorb_noise threshold after_edit ds) = new_side ds"
  by (induction threshold after_edit ds rule: absorb_noise.induct) simp_all

lemma sides_as_change: "old_side (as_change w) = w \<and> new_side (as_change w) = w"
  by (simp add: as_change_def)

lemma split_leading_word_append:
  "split_leading_word p s = (head, rest) \<Longrightarrow> head @ rest = s"
  by (auto simp: split_leading_word_def split: if_splits)

lemma split_trailing_word_append:
  "split_trailing_word q s = (middle, tail) \<Longrightarrow> middle @ tail = s"
proof -
  have "rev (dropWhile in_word (rev s)) @ rev (takeWhile in_word (rev s)) = s"
    by (simp add: rev_append [symmetric] del: rev_append)
  then show "split_trailing_word q s = (middle, tail) \<Longrightarrow> middle @ tail = s"
    by (auto simp: split_trailing_word_def split: if_splits)
qed

lemma sides_shift_boundaries:
  "old_side (shift_boundaries w ds) = old_side ds \<and>
   new_side (shift_boundaries w ds) = new_side ds"
proof (induction w ds rule: shift_boundaries.induct)
  case (1 w)
  show ?case by simp
next
  case (2 w s ds)
  obtain head rest where l: "split_leading_word w s = (head, rest)"
    by (cases "split_leading_word w s")
  obtain middle tail where t: "split_trailing_word (starts_in_word ds) rest = (middle, tail)"
    by (cases "split_trailing_word (starts_in_word ds) rest")
  have s: "s = head @ middle @ tail"
    using split_leading_word_append [OF l] split_trailing_word_append [OF t] by simp
  have v: "shift_boundaries w ((DIFF_EQUAL, s) # ds) =
      as_change head @ (DIFF_EQUAL, middle) # as_change tail @ shift_boundaries False ds"
    by (simp add: l t)
  from 2 [OF l [symmetric] t [symmetric]] show ?case
    unfolding v by (simp add: s old_side_append new_side_append sides_as_change)
qed simp_all

lemma sides_semantic_cleanup:
  "old_side (semantic_cleanup threshold ds) = old_side ds \<and>
   new_side (semantic_cleanup threshold ds) = new_side ds"
  by (simp add: semantic_cleanup_def sides_merge_operations sides_shift_boundaries
      sides_absorb_noise)

lemma sides_compute:
  "old_side (compute threshold old_text new_text) = old_text \<and>
   new_side (compute threshold old_text new_text) = new_text"
  by (simp add: compute_def sides_semantic_cleanup sides_shortest_edit_script)

lemma edit_distance_Nil2 [simp]: "edit_distance xs [] = length xs"
  by (cases xs) simp_all

lemma edit_distance_delete: "edit_distance (x # xs) ys \<le> Suc (edit_distance xs ys)"
  by (cases ys) (simp_all add: Let_def min_le_iff_disj)

lemma edit_distance_insert: "edit_distance xs (y # ys) \<le> Suc (edit_distance xs ys)"
  by (cases xs) (simp_all add: Let_def min_le_iff_disj)

lemma edit_distance_step:
  "(x = y \<and> edit_distance (x # xs) (y # ys) = edit_distance xs ys) \<or>
   edit_distance (x # xs) (y # ys) = Suc (edit_distance xs (y # ys)) \<or>
   edit_distance (x # xs) (y # ys) = Suc (edit_distance (x # xs) ys)"
  by (auto simp: Let_def min_def)

lemma edit_distance_drop_new: "edit_distance xs ys \<le> Suc (edit_distance xs (y # ys))"
proof (induction xs arbitrary: ys y)
  case Nil
  show ?case by simp
next
  case (Cons x xs)
  have a: "edit_distance (x # xs) ys \<le> Suc (edit_distance xs ys)"
    by (rule edit_distance_delete)
  have b: "edit_distance xs ys \<le> Suc (edit_distance xs (y # ys))"
    by (rule Cons)
  from edit_distance_step [of x y xs ys] a b show ?case by linarith
qed

lemma edit_distance_drop_old: "edit_distance xs ys \<le> Suc (edit_distance (x # xs) ys)"
proof (induction ys arbitrary: xs x)
  case Nil
  show ?case by simp
next
  case (Cons y ys)
  have a: "edit_distance xs (y # ys) \<le> Suc (edit_distance xs ys)"
    by (rule edit_distance_insert)
  have b: "edit_distance xs ys \<le> Suc (edit_distance (x # xs) ys)"
    by (rule Cons)
  from edit_distance_step [of x y xs ys] a b show ?case by linarith
qed

lemma edit_distance_same_head: "edit_distance (x # xs) (x # ys) = edit_distance xs ys"
proof -
  have "edit_distance (x # xs) (x # ys) \<le> edit_distance xs ys"
    by (simp add: Let_def)
  moreover have "edit_distance xs ys \<le> edit_distance (x # xs) (x # ys)"
    using edit_distance_step [of x x xs ys] edit_distance_drop_new [of xs ys x]
      edit_distance_drop_old [of xs ys x]
    by linarith
  ultimately show ?thesis by simp
qed

lemma edit_distance_common_prefix: "edit_distance (s @ xs) (s @ ys) = edit_distance xs ys"
  by (induction s) (simp_all add: edit_distance_same_head del: edit_distance.simps)

lemma edit_distance_delete_span: "edit_distance (s @ xs) ys \<le> length s + edit_distance xs ys"
proof (induction s)
  case Nil
  show ?case by simp
next
  case (Cons c s)
  have "edit_distance (c # s @ xs) ys \<le> Suc (edit_distance (s @ xs) ys)"
    by (rule edit_distance_delete)
  with Cons show ?case by simp
qed

lemma edit_distance_insert_span: "edit_distance xs (s @ ys) \<le> length s + edit_distance xs ys"
proof (induction s)
  case Nil
  show ?case by simp
next
  case (Cons c s)
  have "edit_distance xs (c # s @ ys) \<le> Suc (edit_distance xs (s @ ys))"
    by (rule edit_distance_insert)
  with Cons show ?case by simp
qed

lemma edit_distance_le_edit_chars:
  "edit_distance (old_side ds) (new_side ds) \<le> edit_chars ds"
proof (induction ds)
  case Nil
  show ?case by simp
next
  case (Cons d ds)
  obtain t s where d: "d = (t, s)" by (cases d)
  show ?case
  proof (cases t)
    case DIFF_DELETE
    with Cons d edit_distance_delete_span [of s "old_side ds" "new_side ds"]
    show ?thesis by simp
  next
    case DIFF_INSERT
    with Cons d edit_distance_insert_span [of "old_side ds" s "new_side ds"]
    show ?thesis by simp
  next
    case DIFF_EQUAL
    with Cons d show ?thesis by (simp add: edit_distance_common_prefix)
  qed
qed

lemma edit_chars_inserts: "edit_chars (map (\<lambda>y. (DIFF_INSERT, [y])) ys) = length ys"
  by (induction ys) simp_all

lemma edit_chars_deletes: "edit_chars (map (\<lambda>x. (DIFF_DELETE, [x])) xs) = length xs"
  by (induction xs) simp_all

lemma edit_chars_shortest_edit_script:
  "edit_chars (shortest_edit_script xs ys) = edit_distance xs ys"
proof (induction xs ys rule: shortest_edit_script.induct)
  case (1 ys)
  show ?case by (simp add: edit_chars_inserts)
next
  case (2 x xs)
  show ?case using edit_chars_deletes [of "x # xs"] by simp
next
  case (3 x xs y ys)
  show ?case
  proof (cases "x = y")
    case True
    with 3 show ?thesis by (simp add: edit_distance_same_head del: edit_distance.simps)
  next
    case False
    with 3 show ?thesis by (simp add: Let_def min_def)
  qed
qed

lemma shortest_edit_script_same:
  "shortest_edit_script s s = map (\<lambda>x. (DIFF_EQUAL, [x])) s"
  by (induction s) simp_all

lemma gather_edits_equal_chars:
  "gather_edits [] [] (map (\<lambda>x. (DIFF_EQUAL, [x])) s) = map (\<lambda>x. (DIFF_EQUAL, [x])) s"
  by (induction s) (simp_all add: flush_edits_def)

lemma merge_adjacent_equal_chars:
  "merge_adjacent ((DIFF_EQUAL, a) # map (\<lambda>x. (DIFF_EQUAL, [x])) s) = [(DIFF_EQUAL, a @ s)]"
  by (induction s arbitrary: a) simp_all

lemma merge_operations_equal_chars:
  assumes "s \<noteq> []"
  shows "merge_operations (map (\<lambda>x. (DIFF_EQUAL, [x])) s) = [(DIFF_EQUAL, s)]"
proof -
  obtain a list where s: "s = a # list" using assms by (cases s) auto
  have "merge_operations (map (\<lambda>x. (DIFF_EQUAL, [x])) s) =
        merge_adjacent (map (\<lambda>x. (DIFF_EQUAL, [x])) s)"
    by (simp only: merge_operations_def gather_edits_equal_chars)
  also have "\<dots> = merge_adjacent ((DIFF_EQUAL, [a]) # map (\<lambda>x. (DIFF_EQUAL, [x])) list)"
    by (simp add: s)
  also have "\<dots> = [(DIFF_EQUAL, [a] @ list)]"
    by (rule merge_adjacent_equal_chars)
  finally show ?thesis by (simp add: s)
qed

lemma semantic_cleanup_single_equal:
  "s \<noteq> [] \<Longrightarrow>
   semantic_cleanup threshold (map (\<lambda>x. (DIFF_EQUAL, [x])) s) = [(DIFF_EQUAL, s)]"
  by (simp add: semantic_cleanup_def merge_operations_equal_chars)
    (simp add: merge_operations_def flush_edits_def split_leading_word_def
      split_trailing_word_def as_change_def)

lemma compute_same: "s \<noteq> [] \<Longrightarrow> compute threshold s s = [(DIFF_EQUAL, s)]"
  by (simp add: compute_def shortest_edit_script_same semantic_cleanup_single_equal)

lemma compute_Nil: "compute threshold [] [] = []"
  by (simp add: compute_def semantic_cleanup_def merge_operations_def flush_edits_def)

lemma compute_example:
  "compute threshold ''the cat sat'' ''the cat ran'' =
     [(DIFF_EQUAL, ''the cat ''), (DIFF_DELETE, ''sat''), (DIFF_INSERT, ''ran'')]"
  by (simp add: compute_def semantic_cleanup_def merge_operations_def flush_edits_def
      split_leading_word_def split_trailing_word_def as_change_def in_word_def is_boundary_def
      Let_def)

lemma edit_distance_example: "edit_distance ''the cat sat'' ''the cat ran'' = 4"
proof -
  have "edit_distance (''the cat '' @ ''sat'') (''the cat '' @ ''ran'') = edit_distance ''sat'' ''ran''"
    by (rule edit_distance_common_prefix)
  also have "\<dots> = 4" by (simp add: Let_def)
  finally show ?thesis by (simp del: edit_distance.simps)
qed

section \<open>Properties of the engine of the specification\<close>

text \<open>
  C1. For every pair of texts and every threshold, the old side of the edit script of the
  engine (phase 1 followed by the cleanup, as \<^verbatim>\<open>generate_synopsis_html\<close> calls them) is the
  old text and its new side is the new text.
\<close>

theorem reconstruction:
  "old_side (compute threshold old_text new_text) = old_text \<and>
   new_side (compute threshold old_text new_text) = new_text \<and>
   diff_cleanupSemantic (spec_engine threshold)
     (diff_main (spec_engine threshold) old_text new_text) =
   compute threshold old_text new_text"
proof -
  have "diff_cleanupSemantic (spec_engine threshold)
          (diff_main (spec_engine threshold) old_text new_text) =
        compute threshold old_text new_text"
    by (simp add: spec_engine_def compute_def)
  with sides_compute [of threshold old_text new_text] show ?thesis by simp
qed

text \<open>
  Against C5 as stated: the cleaned script for "the cat sat" and "the cat ran" carries six
  characters in its Delete and Insert operations, more than the edit distance of the two
  texts, which is 4.
\<close>

theorem edit_cost_counterexample:
  "\<not> edit_chars (compute 4 ''the cat sat'' ''the cat ran'') \<le>
     edit_distance ''the cat sat'' ''the cat ran''"
  by (simp add: compute_example edit_distance_example del: edit_distance.simps)

text \<open>
  C5, as the engine has it. For every pair of texts, the script of phase 1 carries exactly
  as many characters in Delete and Insert operations as the edit distance of the two texts;
  the script after the cleanup carries at least as many, whatever the threshold. The
  cleanup never lowers the edit cost and can raise it.
\<close>

theorem edit_cost_bounds:
  "edit_chars (shortest_edit_script old_text new_text) = edit_distance old_text new_text \<and>
   edit_distance old_text new_text \<le> edit_chars (compute threshold old_text new_text)"
  using edit_distance_le_edit_chars [of "compute threshold old_text new_text"]
  by (simp add: edit_chars_shortest_edit_script sides_compute)

text \<open>
  C6. For every non-empty text, the engine applied to the text and itself gives the
  script of one Equal operation that spans the text. The script of two texts is empty only
  if both are empty. Rendering an unchanged pair gives the escaped text twice, without an
  annotation.
\<close>

theorem identical_texts:
  "(s \<noteq> [] \<longrightarrow> compute threshold s s = [(DIFF_EQUAL, s)]) \<and>
   (compute threshold old_text new_text = [] \<longrightarrow> old_text = [] \<and> new_text = []) \<and>
   generate_synopsis_html (spec_engine threshold) s s =
     \<lparr>old_version_html = safe_data s, new_version_html = safe_data s\<rparr>"
proof (intro conjI impI)
  assume "s \<noteq> []"
  then show "compute threshold s s = [(DIFF_EQUAL, s)]" by (rule compute_same)
next
  assume e: "compute threshold old_text new_text = []"
  from sides_compute [of threshold old_text new_text] show "old_text = []"
    by (simp add: e)
  from sides_compute [of threshold old_text new_text] show "new_text = []"
    by (simp add: e)
next
  have c: "diff_cleanupSemantic (spec_engine threshold)
             (diff_main (spec_engine threshold) s s) = compute threshold s s"
    by (simp add: spec_engine_def compute_def)
  show "generate_synopsis_html (spec_engine threshold) s s =
          \<lparr>old_version_html = safe_data s, new_version_html = safe_data s\<rparr>"
  proof (cases "s = []")
    case True
    then show ?thesis
      unfolding generate_synopsis_html_def c
      by (simp add: compute_Nil render_def safe_data_concat)
  next
    case False
    then show ?thesis
      unfolding generate_synopsis_html_def c
      by (simp add: compute_same render_def)
  qed
qed

theorem identical_texts_witness:
  "''A B'' \<noteq> [] \<and>
   compute 4 ''A B'' ''A B'' = [(DIFF_EQUAL, ''A B'')] \<and>
   compute 4 [] [] = [] \<and>
   generate_synopsis_html (spec_engine 4) ''A B'' ''A B'' =
     \<lparr>old_version_html = ''A B'', new_version_html = ''A B''\<rparr>"
proof -
  have n: "''A B'' \<noteq> []" by simp
  note t = identical_texts [of "''A B''" 4 "[]" "[]"]
  from t n have a: "compute 4 ''A B'' ''A B'' = [(DIFF_EQUAL, ''A B'')]" by blast
  from t have b: "generate_synopsis_html (spec_engine 4) ''A B'' ''A B'' =
      \<lparr>old_version_html = safe_data ''A B'', new_version_html = safe_data ''A B''\<rparr>"
    by blast
  have c: "safe_data ''A B'' = ''A B''" by (simp add: safe_data_concat)
  have d: "compute 4 [] [] = []" by (rule compute_Nil)
  show ?thesis using n a b c d by simp
qed

text \<open>
  Against C8 as stated, with the annotations the specification names: the rendering of the
  script Equal "the cat ", Delete "sat", Insert "ran" is not the pair
  \<^verbatim>\<open>the cat <del>sat</del>\<close>, \<^verbatim>\<open>the cat <ins>ran</ins>\<close>.
\<close>

theorem example_rendering_counterexample:
  \<open>render [(DIFF_EQUAL, ''the cat ''), (DIFF_DELETE, ''sat''), (DIFF_INSERT, ''ran'')] \<noteq>
     \<lparr>old_version_html = ''the cat <del>sat</del>'',
      new_version_html = ''the cat <ins>ran</ins>''\<rparr>\<close>
  by (simp add: render_def safe_data_concat span_deleted_def span_inserted_def span_close_def)

text \<open>
  C8, as the code has it. For "the cat sat" and "the cat ran" the cleaned edit script of
  the engine is Equal "the cat ", Delete "sat", Insert "ran" (word-aligned after the
  cleanup), whatever the threshold. Rendering it gives the old output
  \<^verbatim>\<open>the cat <span class="diff-deleted">sat</span>\<close> and the new output
  \<^verbatim>\<open>the cat <span class="diff-inserted">ran</span>\<close>, and these are the two strings
  \<^verbatim>\<open>generate_synopsis_html\<close> returns for the two texts, with the engine of the
  specification and with every library object whose cleaned script for them is this one.
\<close>

theorem example_rendering:
  \<open>compute threshold ''the cat sat'' ''the cat ran'' =
     [(DIFF_EQUAL, ''the cat ''), (DIFF_DELETE, ''sat''), (DIFF_INSERT, ''ran'')] \<and>
   render (compute threshold ''the cat sat'' ''the cat ran'') =
     \<lparr>old_version_html = ''the cat <span class="diff-deleted">sat</span>'',
      new_version_html = ''the cat <span class="diff-inserted">ran</span>''\<rparr> \<and>
   generate_synopsis_html (spec_engine threshold) ''the cat sat'' ''the cat ran'' =
     \<lparr>old_version_html = ''the cat <span class="diff-deleted">sat</span>'',
      new_version_html = ''the cat <span class="diff-inserted">ran</span>''\<rparr> \<and>
   (diff_cleanupSemantic dmp (diff_main dmp ''the cat sat'' ''the cat ran'') =
      [(DIFF_EQUAL, ''the cat ''), (DIFF_DELETE, ''sat''), (DIFF_INSERT, ''ran'')] \<longrightarrow>
    generate_synopsis_html dmp ''the cat sat'' ''the cat ran'' =
      \<lparr>old_version_html = ''the cat <span class="diff-deleted">sat</span>'',
       new_version_html = ''the cat <span class="diff-inserted">ran</span>''\<rparr>)\<close>
proof -
  have r: \<open>render [(DIFF_EQUAL, ''the cat ''), (DIFF_DELETE, ''sat''), (DIFF_INSERT, ''ran'')] =
     \<lparr>old_version_html = ''the cat <span class="diff-deleted">sat</span>'',
      new_version_html = ''the cat <span class="diff-inserted">ran</span>''\<rparr>\<close>
    by (simp add: render_def safe_data_concat span_deleted_def span_inserted_def span_close_def)
  have e: "diff_cleanupSemantic (spec_engine threshold)
             (diff_main (spec_engine threshold) ''the cat sat'' ''the cat ran'') =
           compute threshold ''the cat sat'' ''the cat ran''"
    by (simp add: spec_engine_def compute_def)
  show ?thesis
    unfolding generate_synopsis_html_def e compute_example
    using r by simp
qed

theorem example_rendering_witness:
  \<open>diff_cleanupSemantic (spec_engine 4)
     (diff_main (spec_engine 4) ''the cat sat'' ''the cat ran'') =
     [(DIFF_EQUAL, ''the cat ''), (DIFF_DELETE, ''sat''), (DIFF_INSERT, ''ran'')] \<and>
   generate_synopsis_html (spec_engine 4) ''the cat sat'' ''the cat ran'' =
     \<lparr>old_version_html = ''the cat <span class="diff-deleted">sat</span>'',
      new_version_html = ''the cat <span class="diff-inserted">ran</span>''\<rparr>\<close>
proof -
  have h: \<open>diff_cleanupSemantic (spec_engine 4)
     (diff_main (spec_engine 4) ''the cat sat'' ''the cat ran'') =
     [(DIFF_EQUAL, ''the cat ''), (DIFF_DELETE, ''sat''), (DIFF_INSERT, ''ran'')]\<close>
    using compute_example [of 4] by (simp add: spec_engine_def compute_def)
  from example_rendering [of 4 "spec_engine 4"] h
  have \<open>generate_synopsis_html (spec_engine 4) ''the cat sat'' ''the cat ran'' =
     \<lparr>old_version_html = ''the cat <span class="diff-deleted">sat</span>'',
      new_version_html = ''the cat <span class="diff-inserted">ran</span>''\<rparr>\<close>
    by blast
  with h show ?thesis by blast
qed

end
